theory Spec2Isabelle
  imports Main "HOL-Library.Sublist"
begin

section \<open>Python text primitives used by gcode-pp.py\<close>

text \<open>
  Text is a \<^typ>\<open>string\<close>; a character stands for the code point of the same number
  (0 to 255). A file's content is the text as Python's text-mode stream delivers it, that
  is after newline translation, so the only line terminator is \<open>\<newline>\<close>.
\<close>

abbreviation NL :: char where
  "NL \<equiv> CHR ''\<newline>''"

text \<open>Iterating a text stream: each line keeps its terminator; the last one may lack it.\<close>

fun py_lines :: "string \<Rightarrow> string list" where
  "py_lines [] = []"
| "py_lines (c # cs) =
     (if c = NL then [c] # py_lines cs
      else (case py_lines cs of [] \<Rightarrow> [[c]] | l # ls \<Rightarrow> (c # l) # ls))"

text \<open>\<open>s.index(sub)\<close>: the first position of \<open>sub\<close>, \<open>None\<close> where Python raises ValueError.\<close>

fun py_index :: "string \<Rightarrow> string \<Rightarrow> nat option" where
  "py_index [] sub = (if sub = [] then Some 0 else None)"
| "py_index (c # cs) sub =
     (if prefix sub (c # cs) then Some 0 else map_option Suc (py_index cs sub))"

text \<open>\<open>s.split(sep)\<close> for a one-character separator.\<close>

fun py_split :: "char \<Rightarrow> string \<Rightarrow> string list" where
  "py_split sep [] = [[]]"
| "py_split sep (c # cs) =
     (if c = sep then [] # py_split sep cs
      else (case py_split sep cs of [] \<Rightarrow> [[c]] | f # fs \<Rightarrow> (c # f) # fs))"

text \<open>\<open>s.replace(old, new, 1)\<close>: only the first occurrence is replaced.\<close>

fun py_replace1 :: "string \<Rightarrow> string \<Rightarrow> string \<Rightarrow> string" where
  "py_replace1 old new [] = (if old = [] then new else [])"
| "py_replace1 old new (c # cs) =
     (if prefix old (c # cs) then new @ drop (length old) (c # cs)
      else c # py_replace1 old new cs)"

subsection \<open>Decimal text of an integer: \<open>str\<close> and \<open>int\<close>\<close>

text \<open>The ten decimal digits, by value.\<close>

definition digits :: "(nat \<times> char) list" where
  "digits =
     [(0, CHR ''0''), (1, CHR ''1''), (2, CHR ''2''), (3, CHR ''3''), (4, CHR ''4''),
      (5, CHR ''5''), (6, CHR ''6''), (7, CHR ''7''), (8, CHR ''8''), (9, CHR ''9'')]"

definition digit_char :: "nat \<Rightarrow> char" where
  "digit_char d = snd (digits ! (d mod 10))"

definition digit_val :: "char \<Rightarrow> nat option" where
  "digit_val c = map_of (map (\<lambda>(d, k). (k, d)) digits) c"

function str_nat :: "nat \<Rightarrow> string" where
  "str_nat n = (if n < 10 then [digit_char n] else str_nat (n div 10) @ [digit_char (n mod 10)])"
  by pat_completeness auto
termination
  by (relation "measure (\<lambda>n. n)") auto

declare str_nat.simps [simp del]

text \<open>\<open>str(i)\<close> for a Python int.\<close>

definition py_str :: "int \<Rightarrow> string" where
  "py_str i = (if i < 0 then CHR ''-'' # str_nat (nat (- i)) else str_nat (nat i))"

text \<open>
  \<open>int(s)\<close> in base 10. Python skips white space at both ends (tab, line feed, vertical
  tab, form feed, carriage return, space, and of the code points above 127 that a
  character can stand for, U+0085 and U+00A0), accepts one sign, and then wants decimal
  digits, where single underscores may stand between two digits. \<open>None\<close> is ValueError.
  The limit on the number of digits that recent interpreters put on the conversion
  (4300 by default) is not part of the model.
\<close>

definition int_space :: "char \<Rightarrow> bool" where
  "int_space c \<longleftrightarrow>
     c = CHR 0x09 \<or> c = NL \<or> c = CHR 0x0B \<or> c = CHR 0x0C \<or> c = CHR 0x0D \<or> c = CHR '' ''
     \<or> c = CHR 0x85 \<or> c = CHR 0xA0"

definition int_strip :: "string \<Rightarrow> string" where
  "int_strip s = rev (dropWhile int_space (rev (dropWhile int_space s)))"

fun int_digits :: "bool \<Rightarrow> nat \<Rightarrow> string \<Rightarrow> nat option" where
  "int_digits prev_digit acc [] = (if prev_digit then Some acc else None)"
| "int_digits prev_digit acc (c # cs) =
     (if c = CHR ''_'' then (if prev_digit then int_digits False acc cs else None)
      else (case digit_val c of
              None \<Rightarrow> None
            | Some d \<Rightarrow> int_digits True (10 * acc + d) cs))"

definition py_int :: "string \<Rightarrow> int option" where
  "py_int s =
     (case int_strip s of
        [] \<Rightarrow> None
      | c # cs \<Rightarrow>
          if c = CHR ''-'' then map_option (\<lambda>n. - int n) (int_digits False 0 cs)
          else if c = CHR ''+'' then map_option int (int_digits False 0 cs)
          else map_option int (int_digits False 0 (c # cs)))"

section \<open>SourceCode\<close>

text \<open>
  One pass of the loop in \<open>SourceCode.__init__\<close>: \<open>Some n\<close> when the assignment to
  \<open>_count_layers\<close> is reached with value \<open>n\<close>, \<open>None\<close> when the bare \<open>except\<close> swallowed
  the ValueError of \<open>index\<close>, the IndexError of \<open>[1]\<close> or the ValueError of \<open>int\<close>.
\<close>

definition scan_line :: "string \<Rightarrow> int option" where
  "scan_line code_line =
     (case py_index code_line '';LAYER_COUNT:'' of
        None \<Rightarrow> None
      | Some _ \<Rightarrow>
          (case py_split CHR '':'' code_line of
             _ # field # _ \<Rightarrow> py_int field
           | _ \<Rightarrow> None))"

definition scan_step :: "int option \<Rightarrow> string \<Rightarrow> int option" where
  "scan_step count_layers code_line =
     (case scan_line code_line of None \<Rightarrow> count_layers | Some n \<Rightarrow> Some n)"

text \<open>\<open>SourceCode.__init__\<close>: the value of \<open>_count_layers\<close> after the scan of the stream.\<close>

definition count_layers :: "string \<Rightarrow> int option" where
  "count_layers text = foldl scan_step None (py_lines text)"

text \<open>The stream is exhausted by the scan and rewound; the lines are read again later.\<close>

section \<open>GCodePP\<close>

text \<open>
  A rule as the rules file holds it: the mapping with the keys \<open>layer\<close> (an int) and
  \<open>code\<close> (a str). Documents whose entries have another shape are not part of the
  model.
\<close>

record rule =
  layer :: int
  code :: string

text \<open>
  The exceptions of \<open>compile\<close>. \<open>FileNotFoundError\<close> carries the name of the file that
  \<open>open\<close> did not find, the others their message. \<open>LoaderError\<close> is whatever the YAML
  loader raises on a text it rejects.
\<close>

datatype exn =
  FileNotFoundError string
| NameError string
| ValueError string
| TypeError string
| LoaderError string

text \<open>
  The object and the file system it works on. \<open>files\<close> maps a file name to its text;
  \<open>watching\<close> says that \<open>_watcher\<close> is set; \<open>open_sources\<close> lists the source streams
  that are open (the stream of the rules file is never closed by the program and is not
  tracked). The line \<open>compile\<close> prints is not part of the model.
\<close>

record gstate =
  code_filename :: string
  output_filename :: "string option"
  watching :: bool
  rule_ids :: "string list"
  files :: "string \<rightharpoonup> string"
  open_sources :: "string list"

text \<open>\<open>GCodePP.__init__\<close>, on a given file system.\<close>

definition GCodePP :: "string \<Rightarrow> string option \<Rightarrow> bool \<Rightarrow> (string \<rightharpoonup> string) \<Rightarrow> gstate" where
  "GCodePP code_fn output_fn watch fs =
     \<lparr>code_filename = code_fn, output_filename = output_fn, watching = watch,
      rule_ids = [], files = fs, open_sources = []\<rparr>"

subsection \<open>\<open>os.path.splitext\<close> (POSIX)\<close>

fun rfind_from :: "char \<Rightarrow> string \<Rightarrow> int \<Rightarrow> int \<Rightarrow> int" where
  "rfind_from c [] i found = found"
| "rfind_from c (x # xs) i found = rfind_from c xs (i + 1) (if x = c then i else found)"

text \<open>\<open>s.rfind(c)\<close>: the last position of \<open>c\<close>, or \<open>-1\<close>.\<close>

definition py_rfind :: "string \<Rightarrow> char \<Rightarrow> int" where
  "py_rfind s c = rfind_from c s 0 (- 1)"

text \<open>
  The extension starts at the last dot of the last path component, unless only dots
  stand before it in that component.
\<close>

definition splitext :: "string \<Rightarrow> string \<times> string" where
  "splitext p =
     (let sepIndex = py_rfind p CHR ''/'';
          dotIndex = py_rfind p CHR ''.''
      in if dotIndex > sepIndex \<and>
            list_ex (\<lambda>c. c \<noteq> CHR ''.'')
              (take (nat (dotIndex - (sepIndex + 1))) (drop (nat (sepIndex + 1)) p))
         then (take (nat dotIndex) p, drop (nat dotIndex) p)
         else (p, []))"

subsection \<open>\<open>compile\<close>\<close>

text \<open>The bookkeeping of rule identifiers at the head of \<open>compile\<close>.\<close>

definition register :: "string \<Rightarrow> gstate \<Rightarrow> gstate" where
  "register rule_id st =
     (if watching st
      then (if rule_id \<in> set (rule_ids st) then st
            else st\<lparr>rule_ids := rule_ids st @ [rule_id]\<rparr>)
      else st)"

definition rules_filename :: "string \<Rightarrow> string" where
  "rules_filename rule_id = ''rules['' @ rule_id @ ''].yml''"

text \<open>
  The loop that checks the layers. Comparing an int with the \<open>None\<close> of a source
  without layer count is a TypeError, with this message.
\<close>

definition not_supported :: string where
  "not_supported =
     [CHR 0x27] @ ''>='' @ [CHR 0x27] @ '' not supported between instances of '' @
     [CHR 0x27] @ ''int'' @ [CHR 0x27] @ '' and '' @ [CHR 0x27] @ ''NoneType'' @ [CHR 0x27]"

fun check_rules :: "int option \<Rightarrow> rule list \<Rightarrow> exn + unit" where
  "check_rules cnt [] = Inr ()"
| "check_rules cnt (r # rs) =
     (case cnt of
        None \<Rightarrow> Inl (TypeError not_supported)
      | Some n \<Rightarrow>
          if layer r \<ge> n
          then Inl (ValueError (''The layer number ['' @ py_str (layer r) @
                                ''] cannot be more than count layers''))
          else check_rules cnt rs)"

text \<open>
  The inner \<open>try\<close>: open the rules file, load it, check the layers; a FileNotFoundError
  raised anywhere inside becomes a NameError. \<open>load\<close> is the YAML loader, applied to the
  text of the file; it is a parameter, since the loader is a library of its own. Its
  error stands for every exception that reading the document raises inside this \<open>try\<close>
  before the layers are compared.
\<close>

definition load_rules ::
  "(string \<Rightarrow> exn + rule list) \<Rightarrow> (string \<rightharpoonup> string) \<Rightarrow> int option \<Rightarrow> string \<Rightarrow> exn + rule list" where
  \<open>load_rules load fs cnt rule_id =
     (let fn = rules_filename rule_id;
          res = (case fs fn of
                   None \<Rightarrow> Inl (FileNotFoundError fn)
                 | Some text \<Rightarrow>
                     (case load text of
                        Inl e \<Rightarrow> Inl e
                      | Inr rules \<Rightarrow>
                          (case check_rules cnt rules of
                             Inl e \<Rightarrow> Inl e
                           | Inr _ \<Rightarrow> Inr rules)))
      in case res of
           Inl (FileNotFoundError _) \<Rightarrow>
             Inl (NameError (''Rules with a filename "'' @ fn @ ''" cannot be find''))
         | _ \<Rightarrow> res)\<close>

text \<open>The marker line of a layer, and the \<open>layer_comment\<close> of a rule, which is that of its layer.\<close>

definition layer_marker :: "int \<Rightarrow> string" where
  "layer_marker n = '';LAYER:'' @ py_str n @ [NL]"

definition layer_comment :: "rule \<Rightarrow> string" where
  "layer_comment r = layer_marker (layer r)"

text \<open>The inner loop over the rules, for one line of the source.\<close>

definition apply_rule :: "string \<Rightarrow> rule \<Rightarrow> string" where
  "apply_rule code_line r =
     py_replace1 (layer_comment r) (layer_comment r @ code r @ [NL]) code_line"

definition inject :: "rule list \<Rightarrow> string \<Rightarrow> string" where
  "inject rules code_line = foldl apply_rule code_line rules"

text \<open>The outer loop: what is written to the output for the given lines.\<close>

definition write_lines :: "rule list \<Rightarrow> string list \<Rightarrow> string" where
  "write_lines rules lines = foldl (\<lambda>out code_line. out @ inject rules code_line) [] lines"

definition close_source :: "gstate \<Rightarrow> gstate" where
  "close_source st = st\<lparr>open_sources := remove1 (code_filename st) (open_sources st)\<rparr>"

definition output_name :: "gstate \<Rightarrow> string \<Rightarrow> string" where
  "output_name st rule_id =
     (case output_filename st of
        None \<Rightarrow> fst (splitext (code_filename st))
      | Some f \<Rightarrow> f) @ ''['' @ rule_id @ '']'' @ ''.gcode''"

text \<open>
  \<open>compile\<close>. The source is scanned when it is opened; its lines are read again after
  the output file has been opened with mode \<open>w+\<close>, which empties that file, so the lines
  are those of the source file as it is then. The \<open>finally\<close> closes the source on every
  path on which it was opened. Opening and writing the output file succeed in the
  model, and so does decoding the source.
\<close>

definition compile ::
  "(string \<Rightarrow> exn + rule list) \<Rightarrow> gstate \<Rightarrow> string \<Rightarrow> (exn + unit) \<times> gstate" where
  "compile load st0 rule_id =
     (let st = register rule_id st0 in
      case files st (code_filename st) of
        None \<Rightarrow> (Inl (FileNotFoundError (code_filename st)), st)
      | Some text \<Rightarrow>
          let cnt = count_layers text;
              st1 = st\<lparr>open_sources := code_filename st # open_sources st\<rparr>
          in (case load_rules load (files st1) cnt rule_id of
                Inl e \<Rightarrow> (Inl e, close_source st1)
              | Inr rules \<Rightarrow>
                  let out = output_name st1 rule_id;
                      st2 = (case output_filename st1 of
                               None \<Rightarrow> st1\<lparr>output_filename :=
                                              Some (fst (splitext (code_filename st1)))\<rparr>
                             | Some _ \<Rightarrow> st1);
                      st3 = st2\<lparr>files := (files st2)(out \<mapsto> [])\<rparr>;
                      lines = (case files st3 (code_filename st3) of
                                 None \<Rightarrow> []
                               | Some now \<Rightarrow> py_lines now);
                      st4 = st3\<lparr>files := (files st3)(out \<mapsto> write_lines rules lines)\<rparr>
                  in (Inr (), close_source st4)))"

section \<open>Watcher\<close>

text \<open>
  What one turn of the loop in \<open>Watcher.run\<close> meets: the value of \<open>_stopped\<close> at the
  top of the turn, the result of \<open>os.stat\<close> (its \<open>st_mtime\<close>, or the exception), the
  shared list of rule identifiers as it is then, and for each identifier whether the
  call of the target returns (\<open>None\<close>) or raises.
\<close>

record 't poll =
  stop_flag :: bool
  mtime :: "exn + 't"
  known_ids :: "string list"
  outcome :: "string \<Rightarrow> exn option"

text \<open>
  The \<open>for\<close> loop over the identifiers: the calls made, in order, and the exception that
  ended the loop, if any.
\<close>

fun call_targets :: "(string \<Rightarrow> exn option) \<Rightarrow> string list \<Rightarrow> string list \<times> exn option" where
  "call_targets f [] = ([], None)"
| "call_targets f (rule_id # ids) =
     (case f rule_id of
        Some e \<Rightarrow> ([rule_id], Some e)
      | None \<Rightarrow> (case call_targets f ids of (calls, r) \<Rightarrow> (rule_id # calls, r)))"

datatype 't turn =
  Break
| Raise exn "string list"
| Sleep "'t option" "string list"

text \<open>
  One turn of \<open>while 1\<close>, from \<open>started_time\<close>: the loop is left (\<open>Break\<close>), the thread dies
  of an exception after the calls listed (\<open>Raise\<close>), or the turn reaches \<open>time.sleep\<close>
  with the new \<open>started_time\<close> after the calls listed (\<open>Sleep\<close>).
\<close>

definition turn :: "('t::linorder) option \<Rightarrow> 't poll \<Rightarrow> 't turn" where
  "turn started_time p =
     (if stop_flag p then Break
      else (case mtime p of
              Inl e \<Rightarrow> Raise e []
            | Inr modified_time \<Rightarrow>
                (case started_time of
                   None \<Rightarrow> Sleep (Some modified_time) []
                 | Some t \<Rightarrow>
                     if t < modified_time
                     then (case call_targets (outcome p) (known_ids p) of
                             (calls, Some e) \<Rightarrow> Raise e calls
                           | (calls, None) \<Rightarrow> Sleep (Some modified_time) calls)
                     else Sleep started_time [])))"

datatype 't thread = Running "'t option" | Finished | Died exn

text \<open>
  \<open>Watcher.run\<close> against the polls the environment offers, one for each turn: the state
  of the thread when they are used up or the loop has ended, and all calls of the target
  in order. The loop itself never ends by its own; \<open>Running\<close> says that it would go on.
\<close>

fun run :: "('t::linorder) option \<Rightarrow> 't poll list \<Rightarrow> 't thread \<times> string list" where
  "run started_time [] = (Running started_time, [])"
| "run started_time (p # ps) =
     (case turn started_time p of
        Break \<Rightarrow> (Finished, [])
      | Raise e calls \<Rightarrow> (Died e, calls)
      | Sleep started_time' calls \<Rightarrow>
          (case run started_time' ps of (th, calls') \<Rightarrow> (th, calls @ calls')))"

text \<open>Calling \<open>compile\<close> for one rule identifier after the other, as \<open>main\<close> does.\<close>

definition compile_all :: "(string \<Rightarrow> exn + rule list) \<Rightarrow> gstate \<Rightarrow> string list \<Rightarrow> gstate" where
  "compile_all load st ids = fold (\<lambda>rule_id s. snd (compile load s rule_id)) ids st"

section \<open>Notions of the specification\<close>

text \<open>The number of line terminators of a text.\<close>

definition nl :: "string \<Rightarrow> nat" where
  "nl s = length (filter (\<lambda>c. c = NL) s)"

text \<open>
  The sentinel line that declares \<open>N\<close> layers: the text \<open>;LAYER_COUNT:\<close>, the decimal
  text of \<open>N\<close>, and the line terminator (which the last line of a file may lack).
\<close>

definition sentinel_line :: "int \<Rightarrow> string \<Rightarrow> bool" where
  "sentinel_line N l \<longleftrightarrow>
     l = '';LAYER_COUNT:'' @ py_str N @ [NL] \<or> l = '';LAYER_COUNT:'' @ py_str N"

text \<open>
  The lines of injected text that the rules add to one line of the source: for each
  rule, in order, whose marker occurs in the line as the earlier rules have left it,
  the lines of its code followed by a line terminator.
\<close>

fun injected_lines :: "rule list \<Rightarrow> string \<Rightarrow> nat" where
  "injected_lines [] code_line = 0"
| "injected_lines (r # rs) code_line =
     (case py_index code_line (layer_comment r) of
        None \<Rightarrow> 0
      | Some _ \<Rightarrow> length (py_lines (code r @ [NL])))
     + injected_lines rs (apply_rule code_line r)"

text \<open>The identifiers of a sequence in the order in which each was seen first.\<close>

definition first_seen :: "string list \<Rightarrow> string list" where
  "first_seen ids = rev (remdups (rev ids))"

text \<open>
  The state after a \<open>compile\<close> that got as far as writing: the identifier is
  registered, the output name is kept, and the output file holds what the loop wrote.
  When the output file is the source file itself, opening it for writing has emptied
  the source before its lines are read.
\<close>

definition written :: "gstate \<Rightarrow> string \<Rightarrow> string \<Rightarrow> rule list \<Rightarrow> gstate" where
  "written st rule_id text rules =
     (register rule_id st)
       \<lparr>output_filename := Some (case output_filename st of
                                   None \<Rightarrow> fst (splitext (code_filename st)) | Some f \<Rightarrow> f),
        files := (files st)(output_name st rule_id \<mapsto>
                   write_lines rules
                     (if output_name st rule_id = code_filename st then [] else py_lines text))\<rparr>"

section \<open>Sample inputs\<close>

text \<open>
  A small file system: the source of two layers, and a rules file with one rule that
  inserts \<open>PAUSE\<close> at layer 1.
\<close>

definition sample_source :: string where
  "sample_source = '';LAYER_COUNT:2\<newline>;LAYER:0\<newline>A\<newline>;LAYER:1\<newline>B\<newline>''"

definition sample_yaml :: string where
  "sample_yaml = ''- layer: 1\<newline>  code: PAUSE\<newline>''"

definition sample_files :: "string \<rightharpoonup> string" where
  "sample_files = [''print.gcode'' \<mapsto> sample_source, ''rules[pause].yml'' \<mapsto> sample_yaml]"

text \<open>A loader that knows the sample rules file and rejects every other text.\<close>

definition sample_load :: "string \<Rightarrow> exn + rule list" where
  "sample_load y =
     (if y = sample_yaml then Inr [\<lparr>layer = 1, code = ''PAUSE''\<rparr>]
      else Inl (LoaderError ''unknown''))"

text \<open>A loader whose rules file holds one rule, of the given layer.\<close>

definition strict_load :: "int \<Rightarrow> string \<Rightarrow> exn + rule list" where
  "strict_load k y = Inr [\<lparr>layer = k, code = ''PAUSE''\<rparr>]"

text \<open>The object as \<open>main\<close> makes it, without watching, on the sample files.\<close>

definition sample_state :: gstate where
  "sample_state = GCodePP ''print.gcode'' None False sample_files"

text \<open>
  A poll at which the source was modified at time \<open>t\<close>, two identifiers are known and
  every call of the target returns.
\<close>

definition sample_poll :: "bool \<Rightarrow> nat \<Rightarrow> nat poll" where
  "sample_poll stop t =
     \<lparr>stop_flag = stop, mtime = Inr t, known_ids = [''a'', ''b''], outcome = (\<lambda>_. None)\<rparr>"

text \<open>
  A source with one marker line for layer 3, and a rules file with two rules for that
  layer, \<open>A\<close> first and \<open>B\<close> second.
\<close>

definition twin_files :: "string \<rightharpoonup> string" where
  "twin_files = [''m.gcode'' \<mapsto> '';LAYER_COUNT:4\<newline>;LAYER:3\<newline>G1\<newline>'',
                 ''rules[r].yml'' \<mapsto> ''twin'']"

definition twin_load :: "string \<Rightarrow> exn + rule list" where
  "twin_load y = Inr [\<lparr>layer = 3, code = ''A''\<rparr>, \<lparr>layer = 3, code = ''B''\<rparr>]"

text \<open>The same two rules after a rule for layer 1.\<close>

definition mixed_load :: "string \<Rightarrow> exn + rule list" where
  "mixed_load y =
     Inr [\<lparr>layer = 1, code = ''X''\<rparr>, \<lparr>layer = 3, code = ''A''\<rparr>, \<lparr>layer = 3, code = ''B''\<rparr>]"

section \<open>Facts about the text primitives\<close>

lemma concat_py_lines: "concat (py_lines s) = s"
  by (induction s) (auto split: list.splits)

lemma py_lines_nonempty: "[] \<notin> set (py_lines s)"
  by (induction s) (auto split: list.splits)

lemma py_lines_eq_Nil: "py_lines s = [] \<longleftrightarrow> s = []"
  by (cases s) (auto split: list.splits)

lemma length_py_lines:
  "length (py_lines s) = nl s + (if s = [] \<or> last s = NL then 0 else 1)"
proof (induction s)
  case Nil
  show ?case by (simp add: nl_def)
next
  case (Cons c cs)
  show ?case
  proof (cases "c = NL")
    case True
    then show ?thesis using Cons by (auto simp: nl_def)
  next
    case False
    then show ?thesis using Cons
      by (cases "py_lines cs") (auto simp: nl_def py_lines_eq_Nil split: if_splits)
  qed
qed

lemma py_lines_append:
  "a = [] \<or> last a = NL \<Longrightarrow> py_lines (a @ b) = py_lines a @ py_lines b"
proof (induction a)
  case Nil
  show ?case by simp
next
  case (Cons c cs)
  show ?case
  proof (cases "cs = []")
    case True
    with Cons.prems show ?thesis by simp
  next
    case False
    with Cons.prems have "last cs = NL" by simp
    with Cons.IH have ih: "py_lines (cs @ b) = py_lines cs @ py_lines b" by simp
    from False have "py_lines cs \<noteq> []" by (simp add: py_lines_eq_Nil)
    then show ?thesis using ih by (cases "py_lines cs") auto
  qed
qed

lemma py_lines_single: "NL \<notin> set s \<Longrightarrow> py_lines (s @ [NL]) = [s @ [NL]]"
  by (induction s) auto

lemma py_replace1_absent: "py_index s old = None \<Longrightarrow> py_replace1 old new s = s"
  by (induction s) (auto split: if_splits)

lemma py_replace1_present:
  "py_index s old = Some i \<Longrightarrow>
     s = take i s @ old @ drop (i + length old) s \<and>
     py_replace1 old new s = take i s @ new @ drop (i + length old) s"
proof (induction s arbitrary: i)
  case Nil
  then show ?case by (auto split: if_splits)
next
  case (Cons c cs)
  show ?case
  proof (cases "prefix old (c # cs)")
    case True
    with Cons.prems have "i = 0" by simp
    with True show ?thesis by (auto simp: prefix_def)
  next
    case False
    with Cons.prems obtain j where j: "py_index cs old = Some j" "i = Suc j" by auto
    from Cons.IH[OF j(1)] False j(2) show ?thesis by simp
  qed
qed

subsection \<open>The extension of a file name\<close>

lemma rfind_from_range:
  "rfind_from c s i found = found \<or>
   (i \<le> rfind_from c s i found \<and> rfind_from c s i found < i + int (length s) \<and>
    s ! nat (rfind_from c s i found - i) = c)"
proof (induction s arbitrary: i found)
  case Nil
  show ?case by simp
next
  case (Cons x xs)
  let ?f = "if x = c then i else found"
  let ?r = "rfind_from c xs (i + 1) ?f"
  from Cons.IH[of "i + 1" ?f]
  show ?case
  proof
    assume "?r = ?f"
    then show ?thesis by (cases "x = c") auto
  next
    assume a: "i + 1 \<le> ?r \<and> ?r < i + 1 + int (length xs) \<and> xs ! nat (?r - (i + 1)) = c"
    then have "nat (?r - i) = Suc (nat (?r - (i + 1)))" by linarith
    with a show ?thesis by auto
  qed
qed

lemma py_rfind_range:
  "py_rfind s c = - 1 \<or>
   (0 \<le> py_rfind s c \<and> py_rfind s c < int (length s) \<and> s ! nat (py_rfind s c) = c)"
  using rfind_from_range[of c s 0 "- 1"] by (auto simp: py_rfind_def)

lemma splitext_parts:
  assumes "splitext p = (root, ext)"
  shows "p = root @ ext" and "ext = [] \<or> hd ext = CHR ''.''"
proof -
  show "p = root @ ext"
    using assms by (auto simp: splitext_def Let_def split: if_splits)
  show "ext = [] \<or> hd ext = CHR ''.''"
  proof (cases "ext = []")
    case True
    then show ?thesis by simp
  next
    case False
    let ?d = "py_rfind p CHR ''.''"
    from False assms have e: "ext = drop (nat ?d) p" and gt: "?d > py_rfind p CHR ''/''"
      by (auto simp: splitext_def Let_def split: if_splits)
    from py_rfind_range[of p "CHR ''/''"] have "- 1 \<le> py_rfind p CHR ''/''" by auto
    with gt have "?d \<noteq> - 1" by simp
    with py_rfind_range[of p "CHR ''.''"]
    have r: "0 \<le> ?d" "?d < int (length p)" "p ! nat ?d = CHR ''.''" by auto
    then have "nat ?d < length p" by simp
    then have "hd (drop (nat ?d) p) = p ! nat ?d" by (simp add: hd_drop_conv_nth)
    with r e show ?thesis by simp
  qed
qed

text \<open>
  An output name derived from the source name is never the source name: the derived
  name goes on with a bracket where the source name goes on with its extension.
\<close>

lemma output_name_default_neq:
  assumes "output_filename st = None"
  shows "output_name st rule_id \<noteq> code_filename st"
proof
  assume eq: "output_name st rule_id = code_filename st"
  obtain root ext where sp: "splitext (code_filename st) = (root, ext)"
    by (cases "splitext (code_filename st)")
  from splitext_parts[OF sp]
  have p: "code_filename st = root @ ext" and h: "ext = [] \<or> hd ext = CHR ''.''" by auto
  from eq assms sp p have "root @ ''['' @ rule_id @ '']'' @ ''.gcode'' = root @ ext"
    by (simp add: output_name_def)
  then have "ext = ''['' @ rule_id @ '']'' @ ''.gcode''" by simp
  with h show False by simp
qed

lemma output_name_neq_rules: "output_name st rule_id \<noteq> rules_filename rid'"
proof
  assume "output_name st rule_id = rules_filename rid'"
  then have "last (output_name st rule_id) = last (rules_filename rid')" by simp
  then show False by (simp add: output_name_def rules_filename_def)
qed

section \<open>The paths through \<open>compile\<close>\<close>

lemma register_fields [simp]:
  "code_filename (register rule_id st) = code_filename st"
  "output_filename (register rule_id st) = output_filename st"
  "files (register rule_id st) = files st"
  "open_sources (register rule_id st) = open_sources st"
  "watching (register rule_id st) = watching st"
  by (simp_all add: register_def)

lemma output_name_register [simp]:
  "output_name (register rid' st) rule_id = output_name st rule_id"
  by (simp add: output_name_def split: option.splits)

lemma register_idem [simp]: "register rule_id (register rule_id st) = register rule_id st"
  by (simp add: register_def)

lemma compile_source_missing:
  assumes "files st (code_filename st) = None"
  shows "compile load st rule_id =
           (Inl (FileNotFoundError (code_filename st)), register rule_id st)"
  using assms by (simp add: compile_def Let_def)

lemma compile_rules_error:
  assumes "files st (code_filename st) = Some text"
    and "load_rules load (files st) (count_layers text) rule_id = Inl e"
  shows "compile load st rule_id = (Inl e, register rule_id st)"
  using assms by (simp add: compile_def Let_def close_source_def)

lemma compile_rules_ok:
  assumes "files st (code_filename st) = Some text"
    and "load_rules load (files st) (count_layers text) rule_id = Inr rules"
  shows "compile load st rule_id = (Inr (), written st rule_id text rules)"
  using assms
  by (cases "output_filename st")
     (auto simp: compile_def Let_def close_source_def written_def output_name_def)

lemma str_nat_digit: "n < 10 \<Longrightarrow> str_nat n = [digit_char n]"
  by (simp add: str_nat.simps)

lemma check_rules_not_fnf: "check_rules cnt rules \<noteq> Inl (FileNotFoundError f)"
  by (induction rules) (auto split: option.splits)

lemma load_rules_checked:
  assumes "fs (rules_filename rule_id) = Some y" and "load y = Inr rules"
  shows "load_rules load fs cnt rule_id =
           (case check_rules cnt rules of Inl e \<Rightarrow> Inl e | Inr _ \<Rightarrow> Inr rules)"
  using assms check_rules_not_fnf[of cnt rules]
  by (auto simp: load_rules_def Let_def split: sum.splits exn.splits)

lemma load_rules_missing:
  assumes "fs (rules_filename rule_id) = None"
  shows \<open>load_rules load fs cnt rule_id =
           Inl (NameError (''Rules with a filename "'' @ rules_filename rule_id @
                           ''" cannot be find''))\<close>
  using assms by (simp add: load_rules_def Let_def)

lemma check_rules_below:
  "\<forall>r \<in> set rules. layer r < N \<Longrightarrow> check_rules (Some N) rules = Inr ()"
  by (induction rules) auto

lemma check_rules_first_bad:
  "\<forall>q \<in> set pre. layer q < N \<Longrightarrow> layer r \<ge> N \<Longrightarrow>
     check_rules (Some N) (pre @ r # post) =
       Inl (ValueError (''The layer number ['' @ py_str (layer r) @
                        ''] cannot be more than count layers''))"
  by (induction pre) auto

lemma sample_names:
  "code_filename (GCodePP ''print.gcode'' None w sample_files) = ''print.gcode''"
  "output_name (GCodePP ''print.gcode'' None w sample_files) ''pause'' = ''print[pause].gcode''"
  "rules_filename ''pause'' = ''rules[pause].yml''"
  by (simp_all add: GCodePP_def output_name_def splitext_def py_rfind_def rules_filename_def)

lemma sample_count: "count_layers sample_source = Some 2"
  by (simp add: sample_source_def count_layers_def scan_step_def scan_line_def py_int_def
      int_strip_def int_space_def digit_val_def digits_def)

section \<open>The worked example\<close>

text \<open>
  C2. For the source \<open>;LAYER_COUNT:2 / ;LAYER:0 / A / ;LAYER:1 / B\<close> (five terminated
  lines) and the single rule of layer 1 with code \<open>PAUSE\<close>, \<open>compile\<close> succeeds and the
  output file holds the source with the line \<open>PAUSE\<close> after the line \<open>;LAYER:1\<close>. This
  holds on every file system and for every rule identifier and loader that give this
  source and this rule, as long as the output file is not the source file.
\<close>

theorem end_to_end:
  assumes "files st (code_filename st) =
             Some '';LAYER_COUNT:2\<newline>;LAYER:0\<newline>A\<newline>;LAYER:1\<newline>B\<newline>''"
    and "files st (rules_filename rule_id) = Some y"
    and "load y = Inr [\<lparr>layer = 1, code = ''PAUSE''\<rparr>]"
    and "output_name st rule_id \<noteq> code_filename st"
  shows "fst (compile load st rule_id) = Inr () \<and>
         files (snd (compile load st rule_id)) (output_name st rule_id) =
           Some '';LAYER_COUNT:2\<newline>;LAYER:0\<newline>A\<newline>;LAYER:1\<newline>PAUSE\<newline>B\<newline>''"
proof -
  let ?text = "'';LAYER_COUNT:2\<newline>;LAYER:0\<newline>A\<newline>;LAYER:1\<newline>B\<newline>''"
  let ?rules = "[\<lparr>layer = 1, code = ''PAUSE''\<rparr>]"
  have cnt: "count_layers ?text = Some 2"
    using sample_count by (simp add: sample_source_def)
  have "load_rules load (files st) (count_layers ?text) rule_id = Inr ?rules"
    using assms(2,3) by (simp add: load_rules_checked cnt)
  from compile_rules_ok[OF assms(1) this]
  have c: "compile load st rule_id = (Inr (), written st rule_id ?text ?rules)" .
  have "write_lines ?rules (py_lines ?text) =
          '';LAYER_COUNT:2\<newline>;LAYER:0\<newline>A\<newline>;LAYER:1\<newline>PAUSE\<newline>B\<newline>''"
    by (simp add: write_lines_def inject_def apply_rule_def layer_comment_def layer_marker_def py_str_def
        str_nat_digit digit_char_def digits_def)
  with c assms(4) show ?thesis by (simp add: written_def)
qed

theorem end_to_end_witness:
  "fst (compile sample_load (GCodePP ''print.gcode'' None False sample_files) ''pause'') = Inr () \<and>
   files (snd (compile sample_load (GCodePP ''print.gcode'' None False sample_files) ''pause''))
     ''print[pause].gcode'' =
     Some '';LAYER_COUNT:2\<newline>;LAYER:0\<newline>A\<newline>;LAYER:1\<newline>PAUSE\<newline>B\<newline>''"
  using end_to_end[of "GCodePP ''print.gcode'' None False sample_files" "''pause''"
      sample_yaml sample_load]
  by (simp add: sample_names)
     (simp add: GCodePP_def sample_files_def sample_source_def sample_load_def)

lemma load_rules_cong:
  "fs (rules_filename rule_id) = fs' (rules_filename rule_id) \<Longrightarrow>
     load_rules load fs cnt rule_id = load_rules load fs' cnt rule_id"
  by (simp add: load_rules_def)

lemma written_fields:
  "code_filename (written st rule_id text rules) = code_filename st"
  "files (written st rule_id text rules) =
     (files st)(output_name st rule_id \<mapsto> write_lines rules
        (if output_name st rule_id = code_filename st then [] else py_lines text))"
  "output_name (written st rule_id text rules) rule_id = output_name st rule_id"
  "open_sources (written st rule_id text rules) = open_sources st"
  by (simp_all add: written_def output_name_def split: option.splits)

section \<open>Errors of \<open>compile\<close>\<close>

text \<open>
  C6. When the source can be opened and the rules file of identifier \<open>X\<close> does not
  exist, \<open>compile\<close> fails with the NameError whose message names the file
  \<open>rules[X].yml\<close>; the message does not depend on the name of the source. This is not
  the error of a missing source, which is the FileNotFoundError of \<open>open\<close> carrying the
  source name.
\<close>

theorem rules_not_found:
  assumes "files st (code_filename st) = Some text"
    and "files st (rules_filename X) = None"
  shows \<open>fst (compile load st X) =
           Inl (NameError (''Rules with a filename "rules['' @ X @ ''].yml" cannot be find'')) \<and>
         (\<forall>f. fst (compile load st X) \<noteq> Inl (FileNotFoundError f)) \<and>
         (\<forall>st'. files st' (code_filename st') = None \<longrightarrow>
            fst (compile load st' X) = Inl (FileNotFoundError (code_filename st')))\<close>
proof -
  from assms(2) load_rules_missing[of "files st" X load "count_layers text"]
  have \<open>load_rules load (files st) (count_layers text) X =
          Inl (NameError (''Rules with a filename "'' @ rules_filename X @ ''" cannot be find''))\<close> by simp
  from compile_rules_error[OF assms(1) this]
  show ?thesis by (simp add: rules_filename_def compile_source_missing)
qed

theorem rules_not_found_witness:
  \<open>fst (compile sample_load (GCodePP ''print.gcode'' None False sample_files) ''X'') =
     Inl (NameError (''Rules with a filename "rules[X].yml" cannot be find''))\<close>
  using rules_not_found[of "GCodePP ''print.gcode'' None False sample_files" sample_source "''X''" sample_load]
  by (simp add: GCodePP_def sample_files_def rules_filename_def)

text \<open>
  C5. For a source whose declared layer count is \<open>N\<close>: when the first rule that is not
  below \<open>N\<close> has layer \<open>N\<close>, \<open>compile\<close> fails with the ValueError whose message names
  \<open>N\<close>; a rule of layer \<open>N - 1\<close> passes, and with it the whole list when the other rules
  are below \<open>N\<close> too. The bound is strict.
\<close>

theorem layer_bound_strict:
  assumes "files st (code_filename st) = Some text"
    and "count_layers text = Some N"
    and "files st (rules_filename rule_id) = Some y"
    and "load y = Inr (pre @ r # post)"
    and "\<forall>q \<in> set pre. layer q < N"
  shows "(layer r = N \<longrightarrow>
            fst (compile load st rule_id) =
              Inl (ValueError (''The layer number ['' @ py_str N @
                               ''] cannot be more than count layers''))) \<and>
         (layer r = N - 1 \<longrightarrow> (\<forall>q \<in> set post. layer q < N) \<longrightarrow>
            fst (compile load st rule_id) = Inr ())"
proof (intro conjI impI)
  assume eq: "layer r = N"
  then have "check_rules (Some N) (pre @ r # post) =
      Inl (ValueError (''The layer number ['' @ py_str N @ ''] cannot be more than count layers''))"
    using check_rules_first_bad[of pre N r post] assms(5) by simp
  then have "load_rules load (files st) (count_layers text) rule_id =
      Inl (ValueError (''The layer number ['' @ py_str N @ ''] cannot be more than count layers''))"
    using assms(2,3,4) by (simp add: load_rules_checked)
  from compile_rules_error[OF assms(1) this]
  show "fst (compile load st rule_id) =
      Inl (ValueError (''The layer number ['' @ py_str N @ ''] cannot be more than count layers''))"
    by simp
next
  assume "layer r = N - 1" and "\<forall>q \<in> set post. layer q < N"
  with assms(5) have "\<forall>q \<in> set (pre @ r # post). layer q < N" by auto
  then have "check_rules (Some N) (pre @ r # post) = Inr ()" by (rule check_rules_below)
  then have "load_rules load (files st) (count_layers text) rule_id = Inr (pre @ r # post)"
    using assms(2,3,4) by (simp add: load_rules_checked)
  from compile_rules_ok[OF assms(1) this]
  show "fst (compile load st rule_id) = Inr ()" by simp
qed

theorem layer_bound_strict_witness:
  "fst (compile (strict_load 2) (GCodePP ''print.gcode'' None False sample_files) ''pause'') =
     Inl (ValueError ''The layer number [2] cannot be more than count layers'') \<and>
   fst (compile (strict_load 1) (GCodePP ''print.gcode'' None False sample_files) ''pause'') = Inr ()"
  using layer_bound_strict[of "GCodePP ''print.gcode'' None False sample_files" sample_source 2
      "''pause''" sample_yaml "strict_load 2" "[]" "\<lparr>layer = 2, code = ''PAUSE''\<rparr>" "[]"]
    layer_bound_strict[of "GCodePP ''print.gcode'' None False sample_files" sample_source 2
      "''pause''" sample_yaml "strict_load 1" "[]" "\<lparr>layer = 1, code = ''PAUSE''\<rparr>" "[]"]
  by (simp add: sample_count sample_names strict_load_def py_str_def str_nat_digit digit_char_def digits_def)
     (simp add: GCodePP_def sample_files_def)

text \<open>
  C7. When loading or checking the rules fails after the source was opened, the error
  is the result of \<open>compile\<close>, the file system is as before (no output file was created
  or written), and the source stream that was opened is closed again.
\<close>

theorem failure_before_output:
  assumes "files st (code_filename st) = Some text"
    and "load_rules load (files st) (count_layers text) rule_id = Inl e"
  shows "fst (compile load st rule_id) = Inl e \<and>
         files (snd (compile load st rule_id)) = files st \<and>
         open_sources (snd (compile load st rule_id)) = open_sources st"
  using compile_rules_error[OF assms] by simp

theorem failure_before_output_witness:
  "fst (compile (strict_load 2) (GCodePP ''print.gcode'' None False sample_files) ''pause'') =
     Inl (ValueError ''The layer number [2] cannot be more than count layers'') \<and>
  files (snd (compile (strict_load 2) (GCodePP ''print.gcode'' None False sample_files) ''pause'')) = sample_files \<and>
  open_sources (snd (compile (strict_load 2) (GCodePP ''print.gcode'' None False sample_files) ''pause'')) = []"
  using failure_before_output[of "GCodePP ''print.gcode'' None False sample_files" sample_source
      "strict_load 2" "''pause''"
      "ValueError ''The layer number [2] cannot be more than count layers''"]
    load_rules_checked[of sample_files "''pause''" sample_yaml "strict_load 2"
      "[\<lparr>layer = 2, code = ''PAUSE''\<rparr>]" "Some 2"]
  by (simp add: sample_count sample_names strict_load_def py_str_def str_nat_digit digit_char_def digits_def)
     (simp add: GCodePP_def sample_files_def)

section \<open>Running twice\<close>

text \<open>
  C4. Two runs of \<open>compile\<close> for the same rule identifier, the second on the state the
  first left, end alike and leave the same files, so the output of the second run is
  the output of the first; and the first run leaves the source file and the rules file
  as they were. The output name is the one derived from the source name, or any given
  name that does not make the output file the source file.
\<close>

theorem rerun_identical:
  assumes "output_filename st = None \<or> output_name st rule_id \<noteq> code_filename st"
    and "compile load st rule_id = (r1, st1)"
    and "compile load st1 rule_id = (r2, st2)"
  shows "r2 = r1 \<and> files st2 = files st1 \<and>
         files st1 (code_filename st) = files st (code_filename st) \<and>
         files st1 (rules_filename rule_id) = files st (rules_filename rule_id)"
proof -
  from assms(1) have ne: "output_name st rule_id \<noteq> code_filename st"
    using output_name_default_neq by blast
  show ?thesis
  proof (cases "files st (code_filename st)")
    case None
    from compile_source_missing[OF None, of load rule_id] assms(2)
    have 1: "r1 = Inl (FileNotFoundError (code_filename st))" "st1 = register rule_id st" by auto
    then have "files st1 (code_filename st1) = None" using None by simp
    from compile_source_missing[OF this, of load rule_id] assms(3) 1
    show ?thesis by auto
  next
    case (Some src)
    show ?thesis
    proof (cases "load_rules load (files st) (count_layers src) rule_id")
      case (Inl e)
      from compile_rules_error[OF Some Inl] assms(2)
      have 1: "r1 = Inl e" "st1 = register rule_id st" by auto
      then have a: "files st1 (code_filename st1) = Some src"
        and b: "load_rules load (files st1) (count_layers src) rule_id = Inl e"
        using Some Inl by simp_all
      from compile_rules_error[OF a b] assms(3) 1 show ?thesis by auto
    next
      case (Inr rules)
      from compile_rules_ok[OF Some Inr] assms(2)
      have 1: "r1 = Inr ()" "st1 = written st rule_id src rules" by auto
      have a: "files st1 (code_filename st1) = Some src"
        using 1 Some ne by (simp add: written_fields)
      have "files st1 (rules_filename rule_id) = files st (rules_filename rule_id)"
        using 1 output_name_neq_rules[of st rule_id rule_id] by (simp add: written_fields)
      then have b: "load_rules load (files st1) (count_layers src) rule_id = Inr rules"
        using Inr load_rules_cong[of "files st1" rule_id "files st" load] by simp
      from compile_rules_ok[OF a b] assms(3)
      have 2: "r2 = Inr ()" "st2 = written st1 rule_id src rules" by auto
      have "files st2 = files st1"
        using 1 2 ne by (simp add: written_fields)
      moreover have "files st1 (code_filename st) = files st (code_filename st)"
        using 1 ne by (simp add: written_fields)
      moreover have "files st1 (rules_filename rule_id) = files st (rules_filename rule_id)"
        using 1 output_name_neq_rules[of st rule_id rule_id] by (simp add: written_fields)
      ultimately show ?thesis using 1 2 by simp
    qed
  qed
qed

theorem rerun_identical_witness:
  "fst (compile sample_load (snd (compile sample_load sample_state ''pause'')) ''pause'') =
     fst (compile sample_load sample_state ''pause'') \<and>
   files (snd (compile sample_load (snd (compile sample_load sample_state ''pause'')) ''pause'')) =
     files (snd (compile sample_load sample_state ''pause'')) \<and>
   files (snd (compile sample_load sample_state ''pause'')) ''print.gcode'' = Some sample_source"
  using rerun_identical[of sample_state "''pause''" sample_load
      "fst (compile sample_load sample_state ''pause'')"
      "snd (compile sample_load sample_state ''pause'')"
      "fst (compile sample_load (snd (compile sample_load sample_state ''pause'')) ''pause'')"
      "snd (compile sample_load (snd (compile sample_load sample_state ''pause'')) ''pause'')"]
  by (simp add: sample_state_def GCodePP_def sample_files_def)

section \<open>The watcher\<close>

lemma call_targets_all_return:
  "\<forall>i \<in> set ids. f i = None \<Longrightarrow> call_targets f ids = (ids, None)"
  by (induction ids) auto

lemma compile_registers:
  "rule_ids (snd (compile load st rule_id)) = rule_ids (register rule_id st)"
  "watching (snd (compile load st rule_id)) = watching st"
proof -
  have "rule_ids (snd (compile load st rule_id)) = rule_ids (register rule_id st) \<and>
        watching (snd (compile load st rule_id)) = watching st"
  proof (cases "files st (code_filename st)")
    case None
    then show ?thesis by (simp add: compile_source_missing)
  next
    case (Some src)
    show ?thesis
    proof (cases "load_rules load (files st) (count_layers src) rule_id")
      case (Inl e)
      with Some show ?thesis by (simp add: compile_rules_error)
    next
      case (Inr rules)
      with Some show ?thesis by (simp add: compile_rules_ok written_def)
    qed
  qed
  then show "rule_ids (snd (compile load st rule_id)) = rule_ids (register rule_id st)"
    and "watching (snd (compile load st rule_id)) = watching st" by simp_all
qed

lemma set_first_seen [simp]: "set (first_seen ids) = set ids"
  by (simp add: first_seen_def)

lemma distinct_first_seen [simp]: "distinct (first_seen ids)"
  by (simp add: first_seen_def)

lemma first_seen_snoc:
  "first_seen (ids @ [x]) = (if x \<in> set ids then first_seen ids else first_seen ids @ [x])"
  by (simp add: first_seen_def)

lemma compile_all_ids:
  assumes "watching st" and "rule_ids st = []"
  shows "rule_ids (compile_all load st ids) = first_seen ids \<and>
         watching (compile_all load st ids)"
proof (induction ids rule: rev_induct)
  case Nil
  show ?case using assms by (simp add: compile_all_def first_seen_def)
next
  case (snoc x xs)
  have "compile_all load st (xs @ [x]) = snd (compile load (compile_all load st xs) x)"
    by (simp add: compile_all_def)
  with snoc show ?case
    by (simp add: compile_registers register_def first_seen_snoc)
qed

text \<open>
  C9. In a turn of the loop that is not stopped and reads the modification time \<open>m\<close>:
  from the initial state (no time recorded) the target is not called and \<open>m\<close> becomes the
  recorded time; from a recorded time \<open>b < m\<close>, when the calls return, the target is
  called once for each rule identifier that \<open>compile\<close> has been called with, in the order
  in which the identifiers were seen first, and \<open>m\<close> becomes the recorded time; from a
  recorded time that is not below \<open>m\<close> nothing is called and the recorded time stays.
\<close>

theorem watcher_trigger:
  assumes "\<not> stop_flag p" and "mtime p = Inr m"
    and "watching st" and "rule_ids st = []"
    and "known_ids p = rule_ids (compile_all load st ids)"
  shows "turn None p = Sleep (Some m) [] \<and>
         (\<forall>b. b < m \<longrightarrow> (\<forall>i \<in> set ids. outcome p i = None) \<longrightarrow>
               turn (Some b) p = Sleep (Some m) (first_seen ids)) \<and>
         distinct (first_seen ids) \<and> set (first_seen ids) = set ids \<and>
         (\<forall>b. \<not> b < m \<longrightarrow> turn (Some b) p = Sleep (Some b) [])"
proof -
  from compile_all_ids[OF assms(3,4), of load ids] assms(5)
  have k: "known_ids p = first_seen ids" by simp
  have "turn (Some b) p = Sleep (Some m) (first_seen ids)"
    if "b < m" and "\<forall>i \<in> set ids. outcome p i = None" for b
  proof -
    from that(2) k have "call_targets (outcome p) (known_ids p) = (first_seen ids, None)"
      by (simp add: call_targets_all_return)
    with that(1) assms(1,2) show ?thesis by (simp add: turn_def)
  qed
  moreover have "turn None p = Sleep (Some m) []"
    using assms(1,2) by (simp add: turn_def)
  moreover have "turn (Some b) p = Sleep (Some b) []" if "\<not> b < m" for b
    using that assms(1,2) by (simp add: turn_def)
  ultimately show ?thesis by simp
qed

theorem watcher_trigger_witness:
  "turn None (sample_poll False 5) = Sleep (Some 5) [] \<and>
   turn (Some 3) (sample_poll False 5) = Sleep (Some 5) [''a'', ''b''] \<and>
   turn (Some 5) (sample_poll False 5) = Sleep (Some 5) [] \<and>
   turn (Some 7) (sample_poll False 5) = Sleep (Some 7) []"
  using watcher_trigger[of "sample_poll False 5" 5 "GCodePP ''print.gcode'' None True sample_files"
      sample_load "[''a'', ''b'', ''a'']"]
    compile_all_ids[of "GCodePP ''print.gcode'' None True sample_files" sample_load "[''a'', ''b'', ''a'']"]
  by (simp add: sample_poll_def GCodePP_def first_seen_def)

text \<open>
  C10. A turn that finds the stop flag set leaves the loop without a call of the
  target. So whatever polls came before and would come after, the run ends at that
  poll: its calls are those made before it, and the thread is not running any more.
\<close>

theorem stop_ends_loop:
  assumes "stop_flag p"
  shows "turn s p = Break \<and>
         run s (pre @ p # post) =
           (case run s pre of (Running s', calls) \<Rightarrow> (Finished, calls) | r \<Rightarrow> r) \<and>
         snd (run s (pre @ p # post)) = snd (run s pre) \<and>
         (\<forall>s'. fst (run s (pre @ p # post)) \<noteq> Running s')"
proof -
  have b: "turn s p = Break" for s using assms by (simp add: turn_def)
  have r: "run s (pre @ p # post) =
           (case run s pre of (Running s', calls) \<Rightarrow> (Finished, calls) | r \<Rightarrow> r)" for s
  proof (induction pre arbitrary: s)
    case Nil
    show ?case by (simp add: b)
  next
    case (Cons q qs)
    show ?case
    proof (cases "turn s q")
      case Break
      then show ?thesis by simp
    next
      case (Raise e calls)
      then show ?thesis by simp
    next
      case (Sleep s' calls)
      then show ?thesis using Cons.IH[of s']
        by (cases "run s' qs") (auto split: thread.splits)
    qed
  qed
  have "snd (run s (pre @ p # post)) = snd (run s pre)"
    unfolding r by (cases "run s pre") (auto split: thread.splits)
  moreover have "\<forall>s'. fst (run s (pre @ p # post)) \<noteq> Running s'"
    unfolding r by (cases "run s pre") (auto split: thread.splits)
  ultimately show ?thesis using b r by simp
qed

theorem stop_ends_loop_witness:
  "run None [sample_poll False 3, sample_poll False 5, sample_poll True 9, sample_poll False 11] =
     (Finished, [''a'', ''b'']) \<and>
   run None [sample_poll False 3, sample_poll False 5] = (Running (Some 5), [''a'', ''b''])"
  using stop_ends_loop[of "sample_poll True 9" None "[sample_poll False 3, sample_poll False 5]"
      "[sample_poll False 11]"]
  by (simp add: sample_poll_def turn_def)

section \<open>Decimal text: \<open>int\<close> reads what \<open>str\<close> writes\<close>

lemma digit_val_cases:
  "digit_val c = Some d \<Longrightarrow>
     \<not> int_space c \<and> c \<noteq> NL \<and> c \<noteq> CHR '':'' \<and> c \<noteq> CHR ''_'' \<and> c \<noteq> CHR ''-'' \<and> c \<noteq> CHR ''+''"
  by (auto simp: digit_val_def digits_def int_space_def split: if_splits)

lemma digit_char_val: "digit_val (digit_char d) = Some (d mod 10)"
proof -
  have "d mod 10 < 10" by simp
  then have "d mod 10 = 0 \<or> d mod 10 = 1 \<or> d mod 10 = 2 \<or> d mod 10 = 3 \<or> d mod 10 = 4 \<or>
             d mod 10 = 5 \<or> d mod 10 = 6 \<or> d mod 10 = 7 \<or> d mod 10 = 8 \<or> d mod 10 = 9"
    by arith
  then show ?thesis
    by (elim disjE) (simp_all add: digit_char_def digit_val_def digits_def)
qed

lemma str_nat_digits: "c \<in> set (str_nat n) \<Longrightarrow> \<exists>d. digit_val c = Some d"
proof (induction n arbitrary: c rule: str_nat.induct)
  case (1 n)
  show ?case
  proof (cases "n < 10")
    case True
    with "1.prems" show ?thesis by (simp add: str_nat.simps[of n] digit_char_val)
  next
    case False
    with "1.prems" "1.IH" show ?thesis
      by (auto simp: str_nat.simps[of n] digit_char_val)
  qed
qed

lemma str_nat_nonempty: "str_nat n \<noteq> []"
  by (simp add: str_nat.simps[of n])

lemma int_digits_str_nat:
  "int_digits p a (str_nat m @ r) = int_digits True (a * 10 ^ length (str_nat m) + m) r"
proof (induction m arbitrary: p a r rule: str_nat.induct)
  case (1 n)
  show ?case
  proof (cases "n < 10")
    case True
    from digit_val_cases[OF digit_char_val[of n]] have "digit_char n \<noteq> CHR ''_''" by simp
    with True show ?thesis
      by (simp add: str_nat.simps[of n] digit_char_val mult.commute)
  next
    case False
    from digit_val_cases[OF digit_char_val[of "n mod 10"]]
    have u: "digit_char (n mod 10) \<noteq> CHR ''_''" by simp
    have "int_digits p a (str_nat n @ r) =
          int_digits p a (str_nat (n div 10) @ (digit_char (n mod 10) # r))"
      using False by (simp add: str_nat.simps[of n])
    also have "\<dots> = int_digits True (a * 10 ^ length (str_nat (n div 10)) + n div 10)
                       (digit_char (n mod 10) # r)"
      using "1.IH"[OF False] by simp
    also have "\<dots> = int_digits True
                       (10 * (a * 10 ^ length (str_nat (n div 10)) + n div 10) + n mod 10) r"
      using u by (simp add: digit_char_val)
    also have "10 * (a * 10 ^ length (str_nat (n div 10)) + n div 10) + n mod 10 =
               a * 10 ^ length (str_nat n) + n"
      using False by (simp add: str_nat.simps[of n] algebra_simps)
    finally show ?thesis .
  qed
qed

lemma int_digits_str_nat_all: "int_digits False 0 (str_nat m) = Some m"
  using int_digits_str_nat[of False 0 m "[]"] by simp

lemma py_str_chars:
  "c \<in> set (py_str n) \<Longrightarrow> \<not> int_space c \<and> c \<noteq> NL \<and> c \<noteq> CHR '':''"
  using str_nat_digits digit_val_cases
  by (fastforce simp: py_str_def int_space_def split: if_splits)

lemma py_str_nonempty: "py_str n \<noteq> []"
  by (simp add: py_str_def str_nat_nonempty)

lemma int_strip_py_str:
  assumes "\<forall>c \<in> set ws. int_space c"
  shows "int_strip (py_str n @ ws) = py_str n"
proof -
  let ?s = "py_str n"
  have ne: "?s \<noteq> []" by (rule py_str_nonempty)
  then have h: "\<not> int_space (hd ?s)" and l: "\<not> int_space (last ?s)"
    using py_str_chars[of "hd ?s" n] py_str_chars[of "last ?s" n] by simp_all
  from ne h have "dropWhile int_space (?s @ ws) = ?s @ ws" by (cases ?s) simp_all
  moreover have "dropWhile int_space (rev ws @ rev ?s) = dropWhile int_space (rev ?s)"
    using assms by (induction ws rule: rev_induct) simp_all
  moreover have "dropWhile int_space (rev ?s) = rev ?s"
    using ne l by (cases "rev ?s") (simp_all add: last_rev hd_rev[symmetric])
  ultimately show ?thesis by (simp add: int_strip_def)
qed

lemma py_int_py_str:
  assumes "\<forall>c \<in> set ws. int_space c"
  shows "py_int (py_str n @ ws) = Some n"
proof (cases "n < 0")
  case True
  then show ?thesis
    using int_strip_py_str[OF assms, of n]
    by (simp add: py_int_def) (simp add: py_str_def int_digits_str_nat_all)
next
  case False
  obtain c cs where s: "str_nat (nat n) = c # cs"
    using str_nat_nonempty[of "nat n"] by (cases "str_nat (nat n)") auto
  then have "c \<in> set (str_nat (nat n))" by simp
  then obtain d where "digit_val c = Some d" using str_nat_digits by blast
  from digit_val_cases[OF this] have c: "c \<noteq> CHR ''-''" "c \<noteq> CHR ''+''" by simp_all
  have "int_strip (py_str n @ ws) = c # cs"
    using int_strip_py_str[OF assms, of n] False s by (simp add: py_str_def)
  moreover have "int_digits False 0 (c # cs) = Some (nat n)"
    using int_digits_str_nat_all[of "nat n"] s by simp
  ultimately show ?thesis using c False by (simp add: py_int_def)
qed

section \<open>The declared layer count\<close>

lemma py_split_nonempty: "py_split c s \<noteq> []"
  by (induction s) (auto split: list.splits)

lemma py_split_no_sep: "c \<notin> set s \<Longrightarrow> py_split c s = [s]"
  by (induction s) auto

lemma scan_line_sentinel:
  assumes "sentinel_line N l"
  shows "scan_line l = Some N"
proof -
  from assms obtain e where l: "l = '';LAYER_COUNT:'' @ py_str N @ e" and e: "e = [] \<or> e = [NL]"
    by (auto simp: sentinel_line_def)
  from e have sp: "\<forall>c \<in> set e. int_space c" by (auto simp: int_space_def)
  have "CHR '':'' \<notin> set (py_str N @ e)" using py_str_chars[of "CHR '':''" N] e by auto
  then have "py_split CHR '':'' (py_str N @ e) = [py_str N @ e]" by (rule py_split_no_sep)
  then have "py_split CHR '':'' l = ['';LAYER_COUNT'', py_str N @ e]" by (simp add: l)
  moreover have "py_index l '';LAYER_COUNT:'' = Some 0" by (simp add: l)
  ultimately show ?thesis by (simp add: scan_line_def py_int_py_str[OF sp])
qed

lemma scan_line_absent: "py_index l '';LAYER_COUNT:'' = None \<Longrightarrow> scan_line l = None"
  by (simp add: scan_line_def)

lemma foldl_scan_absent: "\<forall>l \<in> set ls. scan_line l = None \<Longrightarrow> foldl scan_step c ls = c"
  by (induction ls arbitrary: c) (simp_all add: scan_step_def)

text \<open>The scan keeps the value of the last line that assigns one.\<close>

lemma foldl_scan_last:
  "foldl scan_step c ls =
     (case filter (\<lambda>l. scan_line l \<noteq> None) ls of [] \<Rightarrow> c | f # fs \<Rightarrow> scan_line (last (f # fs)))"
proof (induction ls rule: rev_induct)
  case Nil
  show ?case by simp
next
  case (snoc x xs)
  show ?case
  proof (cases "scan_line x")
    case None
    with snoc show ?thesis by (simp add: scan_step_def)
  next
    case (Some n)
    then show ?thesis
      by (cases "filter (\<lambda>l. scan_line l \<noteq> None) xs") (simp_all add: scan_step_def)
  qed
qed

lemma count_layers_single:
  assumes "py_lines src = pre @ [l] @ post" and "sentinel_line N l"
    and "\<forall>k \<in> set (pre @ post). py_index k '';LAYER_COUNT:'' = None"
  shows "count_layers src = Some N"
proof -
  from assms(3) have a: "\<forall>k \<in> set pre. scan_line k = None" and b: "\<forall>k \<in> set post. scan_line k = None"
    by (auto simp: scan_line_absent)
  show ?thesis
    by (simp add: count_layers_def assms(1) foldl_scan_absent[OF a] foldl_scan_absent[OF b]
        scan_step_def scan_line_sentinel[OF assms(2)])
qed

text \<open>
  C8. The count of the scan is not always the number after \<open>;LAYER_COUNT:\<close> in the last
  line of that form. The scan accepts every line that contains the sentinel text and
  reads the field between the first and the second colon of the line. In the first
  source no line has the form \<open>;LAYER_COUNT:N\<close> with a number \<open>N\<close>, and the count is 3
  where it should stay unset; in the second the last line of the form declares 5 (and
  the last line that contains the sentinel text shows 9), and the count is 3.
\<close>

theorem count_from_second_field:
  "count_layers ''T:3:;LAYER_COUNT:x\<newline>'' = Some 3 \<and>
   count_layers '';LAYER_COUNT:5\<newline>T:3:;LAYER_COUNT:9\<newline>'' = Some 3"
  by (simp add: count_layers_def scan_step_def scan_line_def py_int_def int_strip_def
      int_space_def digit_val_def digits_def)

section \<open>Several rules for one layer\<close>

lemma inject_Cons: "inject (r # rs) l = inject rs (apply_rule l r)"
  by (simp add: inject_def)

lemma inject_snoc: "inject (rs @ [r]) l = apply_rule (inject rs l) r"
  by (simp add: inject_def)

lemma write_lines_concat: "write_lines rules ls = concat (map (inject rules) ls)"
proof -
  have "foldl (\<lambda>out l. out @ inject rules l) acc ls = acc @ concat (map (inject rules) ls)" for acc
    by (induction ls arbitrary: acc) simp_all
  then show ?thesis by (simp add: write_lines_def)
qed

lemma py_replace1_prefix:
  assumes "old \<noteq> []"
  shows "py_replace1 old new (old @ x) = new @ x"
proof -
  from assms obtain c cs where e: "old @ x = c # cs" by (cases "old @ x") auto
  have "prefix old (c # cs)" unfolding e[symmetric] by simp
  then have "py_replace1 old new (c # cs) = new @ drop (length old) (c # cs)" by simp
  then show ?thesis unfolding e[symmetric] by simp
qed

lemma layer_marker_nonempty: "layer_marker L \<noteq> []"
  by (simp add: layer_marker_def)

lemma py_lines_marker:
  assumes "a = [] \<or> last a = NL"
  shows "py_lines (a @ layer_marker L @ b) = py_lines a @ [layer_marker L] @ py_lines b"
proof -
  have "NL \<notin> set ('';LAYER:'' @ py_str L)" using py_str_chars[of NL L] by auto
  from py_lines_single[OF this]
  have m: "py_lines (layer_marker L) = [layer_marker L]" by (simp add: layer_marker_def)
  have "py_lines (layer_marker L @ b) = py_lines (layer_marker L) @ py_lines b"
    by (rule py_lines_append) (simp add: layer_marker_def)
  with m py_lines_append[OF assms, of "layer_marker L @ b"]
  show ?thesis by simp
qed

lemma twin_names:
  "code_filename (GCodePP ''m.gcode'' None w twin_files) = ''m.gcode''"
  "output_name (GCodePP ''m.gcode'' None w twin_files) ''r'' = ''m[r].gcode''"
  "rules_filename ''r'' = ''rules[r].yml''"
  by (simp_all add: GCodePP_def output_name_def splitext_def py_rfind_def rules_filename_def)

lemma twin_count: "count_layers '';LAYER_COUNT:4\<newline>;LAYER:3\<newline>G1\<newline>'' = Some 4"
  by (simp add: count_layers_def scan_step_def scan_line_def py_int_def
      int_strip_def int_space_def digit_val_def digits_def)

lemma layer_marker_3: "layer_marker 3 = '';LAYER:3\<newline>''"
  by (simp add: layer_marker_def py_str_def str_nat_digit digit_char_def digits_def)

lemma layer_marker_1: "layer_marker 1 = '';LAYER:1\<newline>''"
  by (simp add: layer_marker_def py_str_def str_nat_digit digit_char_def digits_def)

subsection \<open>Markers of other layers\<close>

lemma py_str_inj: "py_str a = py_str b \<Longrightarrow> a = b"
  using py_int_py_str[of "[]" a] py_int_py_str[of "[]" b] by simp

lemma digit_not_semicolon: "digit_val c = Some d \<Longrightarrow> c \<noteq> CHR '';''"
  by (auto simp: digit_val_def digits_def split: if_splits)

lemma py_str_no_semicolon: "CHR '';'' \<notin> set (py_str n)"
  using str_nat_digits digit_not_semicolon
  by (fastforce simp: py_str_def split: if_splits)

lemma py_str_no_NL: "NL \<notin> set (py_str n)"
  using py_str_chars[of NL n] by auto

lemma py_index_absent_char: "c \<notin> set s \<Longrightarrow> py_index s (c # t) = None"
  by (induction s) auto

lemma takeWhile_to_NL: "NL \<notin> set b \<Longrightarrow> takeWhile (\<lambda>c. c \<noteq> NL) (b @ NL # x) = b"
  by (induction b) auto

lemma terminated_eq:
  assumes "prefix (a @ [NL]) (b @ [NL] @ x)" and "NL \<notin> set a" and "NL \<notin> set b"
  shows "a = b"
proof -
  from assms(1) obtain z where e: "b @ [NL] @ x = (a @ [NL]) @ z" by (auto simp: prefix_def)
  from arg_cong[OF e, of "takeWhile (\<lambda>c. c \<noteq> NL)"]
  show ?thesis using assms(2,3) by (simp add: takeWhile_to_NL)
qed

lemma layer_marker_prefix:
  assumes "prefix (layer_marker L') (layer_marker L @ x)"
  shows "L' = L"
proof -
  from assms have "prefix (py_str L' @ [NL]) (py_str L @ [NL] @ x)"
    by (simp add: layer_marker_def)
  from terminated_eq[OF this py_str_no_NL py_str_no_NL] show ?thesis by (rule py_str_inj)
qed

lemma py_index_other_marker:
  assumes "L' \<noteq> L"
  shows "py_index (layer_marker L) (layer_marker L') = None"
proof -
  have "\<not> prefix (layer_marker L') (layer_marker L)"
    using layer_marker_prefix[of L' L "[]"] assms by auto
  moreover have "CHR '';'' \<notin> set (''LAYER:'' @ py_str L @ [NL])"
    using py_str_no_semicolon[of L] by simp
  then have "py_index (''LAYER:'' @ py_str L @ [NL]) (CHR '';'' # ''LAYER:'' @ py_str L' @ [NL]) = None"
    by (rule py_index_absent_char)
  ultimately show ?thesis by (simp add: layer_marker_def)
qed

lemma py_index_append_None:
  assumes "NL \<notin> set m" and "u = [] \<or> last u = NL"
    and "py_index u (m @ [NL]) = None" and "py_index v (m @ [NL]) = None"
  shows "py_index (u @ v) (m @ [NL]) = None"
  using assms(2,3)
proof (induction u)
  case Nil
  show ?case using assms(4) by simp
next
  case (Cons c cs)
  from Cons.prems(2) have np: "\<not> prefix (m @ [NL]) (c # cs)"
    and tl: "py_index cs (m @ [NL]) = None"
    by (auto split: if_splits)
  have l: "last (c # cs) = NL" using Cons.prems(1) by simp
  have "\<not> prefix (m @ [NL]) ((c # cs) @ v)"
  proof
    assume "prefix (m @ [NL]) ((c # cs) @ v)"
    then have "prefix (m @ [NL]) (c # cs) \<or> (\<exists>us. m @ [NL] = (c # cs) @ us \<and> prefix us v)"
      by (simp only: prefix_append)
    with np obtain us where us: "m @ [NL] = (c # cs) @ us" by blast
    with np have "us \<noteq> []" by auto
    then obtain us' x where "us = us' @ [x]" by (cases us rule: rev_cases) auto
    with us have "m @ [NL] = ((c # cs) @ us') @ [x]" by simp
    then have "m = (c # cs) @ us'" by (simp only: append1_eq_conv)
    then have "last (c # cs) \<in> set m" by (metis last_in_set list.distinct(1) set_append UnCI)
    with l assms(1) show False by simp
  qed
  moreover have "py_index (cs @ v) (m @ [NL]) = None"
  proof (cases "cs = []")
    case True
    then show ?thesis using assms(4) by simp
  next
    case False
    with Cons.prems(1) have "last cs = NL" by simp
    with Cons.IH tl show ?thesis by simp
  qed
  ultimately show ?case by simp
qed

lemma py_index_concat_None:
  assumes "NL \<notin> set m"
    and "\<forall>b \<in> set bs. b \<noteq> [] \<and> last b = NL \<and> py_index b (m @ [NL]) = None"
  shows "py_index (concat bs) (m @ [NL]) = None"
  using assms(2)
proof (induction bs)
  case Nil
  show ?case by simp
next
  case (Cons b bs)
  then have "py_index (concat bs) (m @ [NL]) = None" and "last b = NL"
    and "py_index b (m @ [NL]) = None" by simp_all
  with py_index_append_None[OF assms(1), of b "concat bs"] show ?case by simp
qed

lemma layer_marker_form: "\<exists>m. layer_marker n = m @ [NL] \<and> NL \<notin> set m"
proof -
  have "layer_marker n = ('';LAYER:'' @ py_str n) @ [NL]" by (simp add: layer_marker_def)
  moreover have "NL \<notin> set ('';LAYER:'' @ py_str n)" using py_str_no_NL[of n] by simp
  ultimately show ?thesis by blast
qed

lemma inject_marker_line:
  assumes "\<forall>q \<in> set rules. \<forall>r \<in> set rules. layer q = L \<longrightarrow> layer r \<noteq> L \<longrightarrow>
             py_index (code q @ [NL]) (layer_comment r) = None"
  shows "inject rules (layer_marker L) =
           layer_marker L @
           concat (map (\<lambda>r. code r @ [NL]) (rev (filter (\<lambda>r. layer r = L) rules)))"
  using assms
proof (induction rules rule: rev_induct)
  case Nil
  show ?case by (simp add: inject_def)
next
  case (snoc r rs)
  let ?X = "concat (map (\<lambda>r. code r @ [NL]) (rev (filter (\<lambda>r. layer r = L) rs)))"
  from snoc.prems have "\<forall>q \<in> set rs. \<forall>r \<in> set rs. layer q = L \<longrightarrow> layer r \<noteq> L \<longrightarrow>
             py_index (code q @ [NL]) (layer_comment r) = None" by simp
  with snoc.IH have ih: "inject rs (layer_marker L) = layer_marker L @ ?X" by simp
  show ?case
  proof (cases "layer r = L")
    case True
    have "apply_rule (layer_marker L @ ?X) r = (layer_marker L @ code r @ [NL]) @ ?X"
      unfolding apply_rule_def layer_comment_def True
      by (rule py_replace1_prefix) (rule layer_marker_nonempty)
    with ih True show ?thesis by (simp add: inject_snoc)
  next
    case False
    obtain m where m: "layer_marker (layer r) = m @ [NL]" "NL \<notin> set m"
      using layer_marker_form by blast
    have blocks: "\<forall>b \<in> set (map (\<lambda>r. code r @ [NL]) (rev (filter (\<lambda>r. layer r = L) rs))).
        b \<noteq> [] \<and> last b = NL \<and> py_index b (m @ [NL]) = None"
      using snoc.prems False by (auto simp: layer_comment_def m(1))
    have x: "py_index ?X (m @ [NL]) = None"
      by (rule py_index_concat_None[OF m(2) blocks])
    have "py_index (layer_marker L) (m @ [NL]) = None"
      using py_index_other_marker[OF False] by (simp add: m(1))
    moreover have "layer_marker L = [] \<or> last (layer_marker L) = NL"
      by (simp add: layer_marker_def)
    ultimately have "py_index (layer_marker L @ ?X) (m @ [NL]) = None"
      using py_index_append_None[OF m(2) _ _ x] by blast
    then have "apply_rule (layer_marker L @ ?X) r = layer_marker L @ ?X"
      by (simp add: apply_rule_def layer_comment_def m(1) py_replace1_absent)
    with ih False show ?thesis by (simp add: inject_snoc)
  qed
qed

text \<open>A code without a semicolon holds no marker.\<close>

lemma no_semicolon_no_marker:
  assumes "CHR '';'' \<notin> set (code q)"
  shows "py_index (code q @ [NL]) (layer_comment r) = None"
proof -
  have "CHR '';'' \<notin> set (code q @ [NL])" using assms by simp
  then have "py_index (code q @ [NL]) (CHR '';'' # ''LAYER:'' @ py_str (layer r) @ [NL]) = None"
    by (rule py_index_absent_char)
  then show ?thesis by (simp add: layer_comment_def layer_marker_def)
qed

text \<open>Where a code holds the marker of a later rule of another layer, the blocks are parted.\<close>

lemma marker_in_code_parts_blocks:
  "inject [\<lparr>layer = 3, code = ''A''\<rparr>, \<lparr>layer = 3, code = '';LAYER:1''\<rparr>, \<lparr>layer = 1, code = ''X''\<rparr>]
     (layer_marker 3) = '';LAYER:3\<newline>;LAYER:1\<newline>X\<newline>A\<newline>''"
  by (simp add: inject_def apply_rule_def layer_comment_def layer_marker_1 layer_marker_3)

text \<open>
  C1, as stated, fails: with the rules \<open>A\<close> and \<open>B\<close> for layer 3, in this order, and
  one marker line of layer 3, the output has \<open>B\<close> right after the marker and \<open>A\<close> after
  \<open>B\<close>, not \<open>A\<close> before \<open>B\<close>. Each rule puts its code right after the marker, in front
  of what the earlier rules have put there.
\<close>

theorem rule_order_counterexample:
  "files (snd (compile twin_load (GCodePP ''m.gcode'' None False twin_files) ''r'')) ''m[r].gcode'' =
     Some '';LAYER_COUNT:4\<newline>;LAYER:3\<newline>B\<newline>A\<newline>G1\<newline>'' \<and>
   files (snd (compile twin_load (GCodePP ''m.gcode'' None False twin_files) ''r'')) ''m[r].gcode'' \<noteq>
     Some '';LAYER_COUNT:4\<newline>;LAYER:3\<newline>A\<newline>B\<newline>G1\<newline>''"
  by (simp add: compile_def register_def count_layers_def scan_step_def scan_line_def py_int_def
  int_strip_def int_space_def digit_val_def digit_char_def digits_def load_rules_def rules_filename_def
  output_name_def splitext_def py_rfind_def close_source_def write_lines_def inject_def
  apply_rule_def layer_comment_def layer_marker_def py_str_def GCodePP_def Let_def twin_files_def twin_load_def
  str_nat_digit)

text \<open>
  C1, amended. When two (or more) rules of the rule list are for the same layer and the
  source has the marker line of that layer, the output has, right after that marker
  line, the codes of these rules, each followed by a line terminator, in the reverse
  of the order of the rule list: the code of the last such rule first, the code of the
  first such rule last. The rule list may hold rules for other layers as well, as long
  as none of their markers occurs in a code, with its line terminator, of the rules for
  this layer (it does not when these codes hold no semicolon); such a marker would be
  rewritten too, and the inserted text would part the codes. What stands before and
  after the marker line is written as the rules leave it.
\<close>

theorem same_layer_reversed:
  assumes "files st (code_filename st) = Some (a @ layer_marker L @ b)"
    and "a = [] \<or> last a = NL"
    and "load_rules load (files st) (count_layers (a @ layer_marker L @ b)) rule_id = Inr rules"
    and "\<forall>q \<in> set rules. \<forall>r \<in> set rules. layer q = L \<longrightarrow> layer r \<noteq> L \<longrightarrow>
           py_index (code q @ [NL]) (layer_comment r) = None"
    and "output_name st rule_id \<noteq> code_filename st"
  shows "fst (compile load st rule_id) = Inr () \<and>
         files (snd (compile load st rule_id)) (output_name st rule_id) =
           Some (write_lines rules (py_lines a) @
                 layer_marker L @
                 concat (map (\<lambda>r. code r @ [NL]) (rev (filter (\<lambda>r. layer r = L) rules))) @
                 write_lines rules (py_lines b))"
proof -
  from compile_rules_ok[OF assms(1,3)] assms(5)
  have "fst (compile load st rule_id) = Inr ()"
    and "files (snd (compile load st rule_id)) (output_name st rule_id) =
           Some (write_lines rules (py_lines (a @ layer_marker L @ b)))"
    by (simp_all add: written_def)
  moreover have "write_lines rules (py_lines (a @ layer_marker L @ b)) =
      write_lines rules (py_lines a) @
      layer_marker L @
      concat (map (\<lambda>r. code r @ [NL]) (rev (filter (\<lambda>r. layer r = L) rules))) @
      write_lines rules (py_lines b)"
    using inject_marker_line[OF assms(4)]
    by (simp add: py_lines_marker[OF assms(2)] write_lines_concat)
  ultimately show ?thesis by simp
qed

theorem same_layer_reversed_witness:
  "fst (compile mixed_load (GCodePP ''m.gcode'' None False twin_files) ''r'') = Inr () \<and>
   files (snd (compile mixed_load (GCodePP ''m.gcode'' None False twin_files) ''r'')) ''m[r].gcode'' =
     Some '';LAYER_COUNT:4\<newline>;LAYER:3\<newline>B\<newline>A\<newline>G1\<newline>''"
proof -
  let ?st = "GCodePP ''m.gcode'' None False twin_files"
  let ?rules = "[\<lparr>layer = 1, code = ''X''\<rparr>, \<lparr>layer = 3, code = ''A''\<rparr>, \<lparr>layer = 3, code = ''B''\<rparr>]"
  have h1: "files ?st (code_filename ?st) = Some ('';LAYER_COUNT:4\<newline>'' @ layer_marker 3 @ ''G1\<newline>'')"
    by (simp add: GCodePP_def twin_files_def layer_marker_3)
  have h2: "'';LAYER_COUNT:4\<newline>'' = [] \<or> last '';LAYER_COUNT:4\<newline>'' = NL"
    by simp
  have "check_rules (Some 4) ?rules = Inr ()" by simp
  then have h3: "load_rules mixed_load (files ?st)
      (count_layers ('';LAYER_COUNT:4\<newline>'' @ layer_marker 3 @ ''G1\<newline>'')) ''r'' = Inr ?rules"
    using load_rules_checked[of "files ?st" "''r''" "''twin''" mixed_load ?rules "Some 4"] twin_count
    by (simp add: GCodePP_def twin_files_def rules_filename_def mixed_load_def layer_marker_3)
  have h4: "\<forall>q \<in> set ?rules. \<forall>r \<in> set ?rules. layer q = 3 \<longrightarrow> layer r \<noteq> 3 \<longrightarrow>
           py_index (code q @ [NL]) (layer_comment r) = None"
    by (simp add: layer_comment_def layer_marker_1)
  have h5: "output_name ?st ''r'' \<noteq> code_filename ?st"
    by (simp add: twin_names)
  have w1: "write_lines ?rules ['';LAYER_COUNT:4\<newline>''] = '';LAYER_COUNT:4\<newline>''"
    by (simp add: write_lines_def inject_def apply_rule_def layer_comment_def layer_marker_1 layer_marker_3)
  have w2: "write_lines ?rules [''G1\<newline>''] = ''G1\<newline>''"
    by (simp add: write_lines_def inject_def apply_rule_def layer_comment_def layer_marker_1 layer_marker_3)
  from same_layer_reversed[where load = mixed_load, OF h1 h2 h3 h4 h5]
  show ?thesis by (simp add: twin_names w1 w2 layer_marker_3)
qed

section \<open>The number of lines of the output\<close>

lemma nl_append [simp]: "nl (a @ b) = nl a + nl b"
  by (simp add: nl_def)

lemma nl_Nil [simp]: "nl [] = 0"
  by (simp add: nl_def)

lemma nl_concat: "nl (concat xs) = sum_list (map nl xs)"
  by (induction xs) (simp_all add: nl_def)

lemma py_replace1_split:
  assumes "py_index s old = Some i"
  obtains a b where "s = a @ old @ b" and "py_replace1 old new s = a @ new @ b"
  using py_replace1_present[OF assms, of new] by blast

lemma lines_of_code: "length (py_lines (c @ [NL])) = nl c + 1"
  by (simp add: length_py_lines nl_def)

lemma nl_layer_marker: "nl (layer_marker L) = 1"
  using py_str_chars[of NL L] by (auto simp: layer_marker_def nl_def filter_empty_conv)

lemma nl_apply_rule:
  "nl (apply_rule l r) =
     nl l + (case py_index l (layer_comment r) of None \<Rightarrow> 0
             | Some _ \<Rightarrow> length (py_lines (code r @ [NL])))"
proof (cases "py_index l (layer_comment r)")
  case None
  then show ?thesis by (simp add: apply_rule_def py_replace1_absent)
next
  case (Some i)
  then obtain a b where e1: "l = a @ layer_comment r @ b"
    and e2: "apply_rule l r = a @ (layer_comment r @ code r @ [NL]) @ b"
    unfolding apply_rule_def by (rule py_replace1_split)
  from arg_cong[OF e1, of nl] have "nl l = nl a + nl (layer_comment r) + nl b" by simp
  moreover from arg_cong[OF e2, of nl]
  have "nl (apply_rule l r) = nl a + nl (layer_comment r) + nl (code r) + 1 + nl b"
    by (simp add: nl_def)
  ultimately have "nl (apply_rule l r) = nl l + (nl (code r) + 1)" by simp
  with Some show ?thesis by (simp add: lines_of_code)
qed

lemma nl_inject: "nl (inject rules l) = nl l + injected_lines rules l"
  by (induction rules arbitrary: l) (simp_all add: inject_Cons nl_apply_rule inject_def)

lemma nl_write_lines:
  "nl (write_lines rules ls) = sum_list (map nl ls) + sum_list (map (injected_lines rules) ls)"
  by (induction ls) (simp_all add: write_lines_concat nl_inject)

lemma apply_rule_last:
  assumes "l \<noteq> []"
  shows "apply_rule l r \<noteq> [] \<and> last (apply_rule l r) = last l"
proof (cases "py_index l (layer_comment r)")
  case None
  with assms show ?thesis by (simp add: apply_rule_def py_replace1_absent)
next
  case (Some i)
  then obtain a b where e1: "l = a @ layer_comment r @ b"
    and e2: "apply_rule l r = a @ (layer_comment r @ code r @ [NL]) @ b"
    unfolding apply_rule_def by (rule py_replace1_split)
  have m: "last (layer_comment r) = NL" "layer_comment r \<noteq> []"
    by (simp_all add: layer_comment_def layer_marker_def)
  show ?thesis
  proof (cases "b = []")
    case True
    from arg_cong[OF e1, of last] True m have "last l = NL" by simp
    moreover from arg_cong[OF e2, of last] True have "last (apply_rule l r) = NL" by simp
    moreover from e2 have "apply_rule l r \<noteq> []" by simp
    ultimately show ?thesis by simp
  next
    case False
    from arg_cong[OF e1, of last] False have "last l = last b" by simp
    moreover from arg_cong[OF e2, of last] False have "last (apply_rule l r) = last b" by simp
    moreover from e2 have "apply_rule l r \<noteq> []" by simp
    ultimately show ?thesis by simp
  qed
qed

lemma inject_last: "l \<noteq> [] \<Longrightarrow> inject rules l \<noteq> [] \<and> last (inject rules l) = last l"
proof (induction rules arbitrary: l)
  case Nil
  then show ?case by (simp add: inject_def)
next
  case (Cons r rs)
  from apply_rule_last[OF Cons.prems, of r] Cons.IH[of "apply_rule l r"]
  show ?case by (simp add: inject_Cons)
qed

lemma write_lines_end:
  assumes "[] \<notin> set ls"
  shows "(write_lines rules ls = [] \<longleftrightarrow> concat ls = []) \<and>
         (concat ls \<noteq> [] \<longrightarrow> last (write_lines rules ls) = last (concat ls))"
  using assms
proof (induction ls rule: rev_induct)
  case Nil
  show ?case by (simp add: write_lines_concat)
next
  case (snoc x xs)
  from snoc.prems have "x \<noteq> []" by auto
  from inject_last[OF this, of rules] \<open>x \<noteq> []\<close>
  show ?case by (simp add: write_lines_concat)
qed

lemma length_written:
  "length (py_lines (write_lines rules (py_lines src))) =
     length (py_lines src) + sum_list (map (injected_lines rules) (py_lines src))"
proof -
  let ?out = "write_lines rules (py_lines src)"
  from write_lines_end[OF py_lines_nonempty[of src], of rules]
  have e: "(?out = [] \<or> last ?out = NL) \<longleftrightarrow> (src = [] \<or> last src = NL)"
    by (auto simp: concat_py_lines)
  have "nl ?out = nl src + sum_list (map (injected_lines rules) (py_lines src))"
    using nl_concat[of "py_lines src"] by (simp add: nl_write_lines concat_py_lines)
  with e show ?thesis by (simp add: length_py_lines)
qed

lemma sample_lines:
  "py_lines sample_source =
     ['';LAYER_COUNT:2\<newline>'', '';LAYER:0\<newline>'', ''A\<newline>'', '';LAYER:1\<newline>'', ''B\<newline>'']"
  by (simp add: sample_source_def)

lemma sample_injected:
  "map (injected_lines [\<lparr>layer = 1, code = ''PAUSE''\<rparr>]) (py_lines sample_source) = [0, 0, 0, 1, 0]"
  by (simp add: sample_lines layer_comment_def layer_marker_1)

lemma py_str_2: "py_str 2 = ''2''"
  by (simp add: py_str_def str_nat_digit digit_char_def digits_def)

text \<open>
  C3. For a source in which exactly one line holds the text \<open>;LAYER_COUNT:\<close>, that line
  being the sentinel line of \<open>N\<close>, and rules whose layers are all below \<open>N\<close>, \<open>compile\<close>
  succeeds and the output file has as many lines as the source and, in addition, the
  lines of injected text: for each line of the source and each rule whose marker occurs
  in the line when the rule is applied, the lines of the rule's code followed by a line
  terminator. Lines are counted as the iteration of a text stream yields them.
\<close>

theorem line_count:
  assumes "files st (code_filename st) = Some src"
    and "py_lines src = pre @ [l] @ post"
    and "sentinel_line N l"
    and "\<forall>k \<in> set (pre @ post). py_index k '';LAYER_COUNT:'' = None"
    and "files st (rules_filename rule_id) = Some y"
    and "load y = Inr rules"
    and "\<forall>r \<in> set rules. layer r < N"
    and "output_name st rule_id \<noteq> code_filename st"
  shows "fst (compile load st rule_id) = Inr () \<and>
         map_option (\<lambda>out. length (py_lines out))
             (files (snd (compile load st rule_id)) (output_name st rule_id)) =
           Some (length (py_lines src) +
                 sum_list (map (injected_lines rules) (py_lines src)))"
proof -
  from count_layers_single[OF assms(2,3,4)] have "count_layers src = Some N" .
  then have "load_rules load (files st) (count_layers src) rule_id = Inr rules"
    using assms(5,6) check_rules_below[OF assms(7)] by (simp add: load_rules_checked)
  from compile_rules_ok[OF assms(1) this] assms(8)
  show ?thesis by (simp add: written_def length_written)
qed

theorem line_count_witness:
  "fst (compile sample_load sample_state ''pause'') = Inr () \<and>
   map_option (\<lambda>out. length (py_lines out))
       (files (snd (compile sample_load sample_state ''pause'')) ''print[pause].gcode'') =
     Some 6"
proof -
  have h1: "files sample_state (code_filename sample_state) = Some sample_source"
    by (simp add: sample_state_def GCodePP_def sample_files_def)
  have h2: "py_lines sample_source =
      [] @ ['';LAYER_COUNT:2\<newline>''] @
      ['';LAYER:0\<newline>'', ''A\<newline>'', '';LAYER:1\<newline>'', ''B\<newline>'']"
    by (simp add: sample_lines)
  have h3: "sentinel_line 2 '';LAYER_COUNT:2\<newline>''"
    by (simp add: sentinel_line_def py_str_2)
  have h4: "\<forall>k \<in> set ([] @ ['';LAYER:0\<newline>'', ''A\<newline>'', '';LAYER:1\<newline>'', ''B\<newline>'']).
      py_index k '';LAYER_COUNT:'' = None"
    by simp
  have h5: "files sample_state (rules_filename ''pause'') = Some sample_yaml"
    by (simp add: sample_state_def GCodePP_def sample_files_def rules_filename_def)
  have h6: "sample_load sample_yaml = Inr [\<lparr>layer = 1, code = ''PAUSE''\<rparr>]"
    by (simp add: sample_load_def)
  have h7: "\<forall>r \<in> set [\<lparr>layer = 1, code = ''PAUSE''\<rparr>]. layer r < 2"
    by simp
  have h8: "output_name sample_state ''pause'' \<noteq> code_filename sample_state"
    by (simp add: sample_state_def sample_names)
  have n: "output_name sample_state ''pause'' = ''print[pause].gcode''"
    by (simp add: sample_state_def sample_names)
  have v: "length (py_lines sample_source) +
      sum_list (map (injected_lines [\<lparr>layer = 1, code = ''PAUSE''\<rparr>]) (py_lines sample_source)) = 6"
    unfolding sample_injected by (simp add: sample_lines)
  from line_count[where load = sample_load, OF h1 h2 h3 h4 h5 h6 h7 h8]
  show ?thesis by (simp only: n v)
qed

end
